theory Spec2Isabelle
  imports Main
begin

section \<open>Rate limiter (class RateLimiter of the security library)\<close>

text \<open>
  The class keeps, per identifier, the array of the timestamps of the admitted requests.
  Timestamps are the integers returned by \<^verbatim>\<open>Date.now()\<close>; every method reads the clock
  once, so the reading is a parameter \<open>now\<close> of the method. A method returns its value
  together with the limiter after the call, so that what a call stores (or does not store)
  is a statement about the model and not built into its type.
\<close>

record RateLimiter =
  requests :: "string \<rightharpoonup> int list"
  windowMs :: int
  maxRequests :: int

definition new_RateLimiter :: "int \<Rightarrow> int \<Rightarrow> RateLimiter" where
  "new_RateLimiter w m = \<lparr>requests = Map.empty, windowMs = w, maxRequests = m\<rparr>"

text \<open>\<^verbatim>\<open>this.requests.get(identifier) || []\<close>\<close>

definition stored :: "RateLimiter \<Rightarrow> string \<Rightarrow> int list" where
  "stored rl identifier = (case requests rl identifier of None \<Rightarrow> [] | Some ts \<Rightarrow> ts)"

text \<open>\<^verbatim>\<open>requests.filter(time => now - time < this.windowMs)\<close>\<close>

definition validRequests :: "RateLimiter \<Rightarrow> int \<Rightarrow> string \<Rightarrow> int list" where
  "validRequests rl now identifier = filter (\<lambda>time. now - time < windowMs rl) (stored rl identifier)"

definition isAllowed :: "RateLimiter \<Rightarrow> int \<Rightarrow> string \<Rightarrow> bool \<times> RateLimiter" where
  "isAllowed rl now identifier =
     (let valid = validRequests rl now identifier in
      if maxRequests rl \<le> int (length valid) then (False, rl)
      else (True, rl\<lparr>requests := (requests rl)(identifier \<mapsto> valid @ [now])\<rparr>))"

definition getRemainingRequests :: "RateLimiter \<Rightarrow> int \<Rightarrow> string \<Rightarrow> int \<times> RateLimiter" where
  "getRemainingRequests rl now identifier =
     (let valid = validRequests rl now identifier in
      (max 0 (maxRequests rl - int (length valid)), rl))"

text \<open>\<^verbatim>\<open>Math.min(...validRequests)\<close> on a non-empty array.\<close>

fun min_of :: "int \<Rightarrow> int list \<Rightarrow> int" where
  "min_of m [] = m"
| "min_of m (x # xs) = min_of (min m x) xs"

definition getResetTime :: "RateLimiter \<Rightarrow> int \<Rightarrow> string \<Rightarrow> int \<times> RateLimiter" where
  "getResetTime rl now identifier =
     (let valid = validRequests rl now identifier in
      (case valid of [] \<Rightarrow> now | t # ts \<Rightarrow> min_of t ts + windowMs rl, rl))"

text \<open>Successive \<open>isAllowed\<close> calls for one identifier, at the given clock readings.\<close>

fun isAllowed_seq :: "RateLimiter \<Rightarrow> string \<Rightarrow> int list \<Rightarrow> bool list \<times> RateLimiter" where
  "isAllowed_seq rl identifier [] = ([], rl)"
| "isAllowed_seq rl identifier (t # ts) =
     (case isAllowed rl t identifier of
        (b, rl') \<Rightarrow> (case isAllowed_seq rl' identifier ts of (bs, rl'') \<Rightarrow> (b # bs, rl'')))"

section \<open>Security audit logger (class SecurityAuditLogger)\<close>

text \<open>
  A log entry is the object built by \<open>log\<close>. The \<open>details\<close> argument is any JavaScript
  value; the values that occur are strings, numbers, \<^verbatim>\<open>undefined\<close>, the ISO string of a
  clock reading (\<^verbatim>\<open>new Date().toISOString()\<close>, kept as the reading), arrays of strings and
  objects (key-value lists).
\<close>

datatype log_level = Info | Warning | Error

fun level_name :: "log_level \<Rightarrow> string" where
  "level_name Info = ''info''"
| "level_name Warning = ''warning''"
| "level_name Error = ''error''"

datatype jsvalue =
    JUndefined
  | JString string
  | JNumber int
  | JISOString int
  | JStrings "string list"
  | JObject "(string \<times> jsvalue) list"

record logEntry =
  timestamp :: int
  level :: log_level
  event :: string
  details :: jsvalue
  log_userId :: "string option"
  ip :: "string option"

record SecurityAuditLogger =
  logs :: "logEntry list"

definition new_SecurityAuditLogger :: SecurityAuditLogger where
  "new_SecurityAuditLogger = \<lparr>logs = []\<rparr>"

text \<open>\<^verbatim>\<open>xs.slice(-1000)\<close>: the last 1000 elements, all of them when there are fewer.\<close>

definition slice_last :: "nat \<Rightarrow> 'a list \<Rightarrow> 'a list" where
  "slice_last n xs = drop (length xs - n) xs"

text \<open>
  \<open>log\<close> reads the clock once (\<^verbatim>\<open>new Date()\<close>), pushes the entry and keeps the last
  1000 entries when there are more. The console output in production is not modelled.
\<close>

definition log ::
  "SecurityAuditLogger \<Rightarrow> int \<Rightarrow> log_level \<Rightarrow> string \<Rightarrow> jsvalue \<Rightarrow> string option \<Rightarrow> string option
     \<Rightarrow> SecurityAuditLogger" where
  "log lg now lvl ev det uid ipaddr =
     (let logEntry = \<lparr>timestamp = now, level = lvl, event = ev, details = det,
                       log_userId = uid, ip = ipaddr\<rparr>;
          pushed = logs lg @ [logEntry]
      in if 1000 < length pushed then lg\<lparr>logs := slice_last 1000 pushed\<rparr>
         else lg\<lparr>logs := pushed\<rparr>)"

text \<open>
  The optional filter of \<open>getLogs\<close>. A field is applied when it is truthy: a string that
  is present and not empty, a \<^verbatim>\<open>Date\<close> that is present (its time value is the integer).
\<close>

record log_filter =
  f_level :: "string option"
  f_userId :: "string option"
  f_since :: "int option"

definition truthy_string :: "string option \<Rightarrow> bool" where
  "truthy_string s = (case s of None \<Rightarrow> False | Some x \<Rightarrow> x \<noteq> [])"

definition getLogs :: "SecurityAuditLogger \<Rightarrow> log_filter option \<Rightarrow> logEntry list" where
  "getLogs lg flt =
     (case flt of
        None \<Rightarrow> logs lg
      | Some f \<Rightarrow>
          (let l1 = (if truthy_string (f_level f)
                     then filter (\<lambda>e. Some (level_name (level e)) = f_level f) (logs lg)
                     else logs lg);
               l2 = (if truthy_string (f_userId f)
                     then filter (\<lambda>e. log_userId e = f_userId f) l1
                     else l1);
               l3 = (case f_since f of
                       Some since \<Rightarrow> filter (\<lambda>e. since \<le> timestamp e) l2
                     | None \<Rightarrow> l2)
           in l3))"

text \<open>A sequence of \<open>log\<close> calls, each given by the entry it builds.\<close>

definition log_entry :: "logEntry \<Rightarrow> SecurityAuditLogger \<Rightarrow> SecurityAuditLogger" where
  "log_entry e lg = log lg (timestamp e) (level e) (event e) (details e) (log_userId e) (ip e)"

definition log_all :: "logEntry list \<Rightarrow> SecurityAuditLogger \<Rightarrow> SecurityAuditLogger" where
  "log_all es lg = fold log_entry es lg"

text \<open>
  What "an entry matches the filters" means once the empty string counts as no filter: a
  level or a user given as a non-empty string is the level or the user of the entry, and a
  date that is given is not after the entry's timestamp.
\<close>

definition matches_given :: "log_filter option \<Rightarrow> logEntry \<Rightarrow> bool" where
  "matches_given flt e =
     (case flt of
        None \<Rightarrow> True
      | Some f \<Rightarrow>
          (case f_level f of
             None \<Rightarrow> True
           | Some l \<Rightarrow>
               l = [] \<or> l = (case level e of Info \<Rightarrow> ''info'' | Warning \<Rightarrow> ''warning''
                                             | Error \<Rightarrow> ''error''))
          \<and> (case f_userId f of None \<Rightarrow> True | Some u \<Rightarrow> u = [] \<or> log_userId e = Some u)
          \<and> (case f_since f of None \<Rightarrow> True | Some d \<Rightarrow> d \<le> timestamp e))"

text \<open>Example entries: a level, a user and a timestamp.\<close>

definition example_entry :: "log_level \<Rightarrow> string option \<Rightarrow> int \<Rightarrow> logEntry" where
  "example_entry lvl uid t =
     \<lparr>timestamp = t, level = lvl, event = ''event'', details = JUndefined,
      log_userId = uid, ip = None\<rparr>"

section \<open>Retry wrapper (function withRetry of the error handling library)\<close>

text \<open>
  The operation is an asynchronous function with effects: it takes the state of the world
  and returns either the value it resolves to (\<open>Inr\<close>) or the error it rejects with
  (\<open>Inl\<close>), and the state after it. The loop returns its outcome, the state, and the
  trace of what it did, in order: each invocation of the operation and each wait (the
  argument of \<^verbatim>\<open>setTimeout\<close>). \<open>lastError\<close> is unassigned (\<open>None\<close>) until an attempt
  fails; the \<^verbatim>\<open>throw lastError!\<close> after the loop throws it as it is.
\<close>

datatype retry_event = Invoked | Waited int

function withRetry_loop ::
  "('s \<Rightarrow> ('e + 'a) \<times> 's) \<Rightarrow> int \<Rightarrow> int \<Rightarrow> nat \<Rightarrow> 'e option \<Rightarrow> 's
     \<Rightarrow> ('e option + 'a) \<times> 's \<times> retry_event list" where
  "withRetry_loop operation maxRetries delay attempt lastError s =
     (if int attempt \<le> maxRetries then
        (case operation s of
           (Inr v, s') \<Rightarrow> (Inr v, s', [Invoked])
         | (Inl err, s') \<Rightarrow>
             if int attempt = maxRetries then (Inl (Some err), s', [Invoked])
             else (case withRetry_loop operation maxRetries delay (Suc attempt) (Some err) s' of
                     (r, s'', tr) \<Rightarrow> (r, s'', Invoked # Waited (delay * 2 ^ attempt) # tr)))
      else (Inl lastError, s, []))"
  by pat_completeness auto
termination
  by (relation "measure (\<lambda>(operation, maxRetries, delay, attempt, lastError, s).
                  nat (maxRetries + 1 - int attempt))") auto

definition withRetry ::
  "('s \<Rightarrow> ('e + 'a) \<times> 's) \<Rightarrow> int \<Rightarrow> int \<Rightarrow> 's \<Rightarrow> ('e option + 'a) \<times> 's \<times> retry_event list" where
  "withRetry operation maxRetries delay s = withRetry_loop operation maxRetries delay 0 None s"

definition invocations :: "retry_event list \<Rightarrow> nat" where
  "invocations tr = length (filter (\<lambda>e. e = Invoked) tr)"

text \<open>
  The trace of \<open>k\<close> failed attempts numbered from \<open>a\<close>, each followed by its wait, and one
  more attempt.
\<close>

definition backoff_trace :: "int \<Rightarrow> nat \<Rightarrow> nat \<Rightarrow> retry_event list" where
  "backoff_trace delay a k =
     concat (map (\<lambda>i. [Invoked, Waited (delay * 2 ^ i)]) [a..<a + k]) @ [Invoked]"

text \<open>The state in which the attempt number \<open>k\<close> starts, when the attempts before it failed.\<close>

primrec state_before :: "('s \<Rightarrow> ('e + 'a) \<times> 's) \<Rightarrow> nat \<Rightarrow> 's \<Rightarrow> 's" where
  "state_before operation 0 s = s"
| "state_before operation (Suc k) s = state_before operation k (snd (operation s))"

section \<open>Security middleware and the transformation request handler (convex/security.ts)\<close>

subsection \<open>The platform: identity, record store, scheduler, clock\<close>

text \<open>
  \<^verbatim>\<open>ctx.auth.getUserIdentity()\<close> is asynchronous: it returns a promise of the identity
  (or of \<^verbatim>\<open>null\<close>), which every call site but one awaits. Reading the property
  \<^verbatim>\<open>subject\<close> of the promise object itself, without awaiting it, gives
  \<^verbatim>\<open>undefined\<close>.
\<close>

record user_identity =
  subject :: string

datatype 'a promise = Promise 'a

fun await :: "'a promise \<Rightarrow> 'a" where
  "await (Promise x) = x"

fun promise_subject :: "'a promise \<Rightarrow> string option" where
  "promise_subject (Promise x) = None"

text \<open>
  A document of the table of images. \<open>image_id\<close> is its \<^verbatim>\<open>_id\<close>; the status is the
  string the code compares and writes. (Fields that two objects share by name carry a
  prefix in one of them: \<open>log_userId\<close> in a log entry, \<open>job_userId\<close> and \<open>job_style\<close> in the
  payload, \<open>result_status\<close> in the returned object.)
\<close>

record image =
  image_id :: string
  userId :: string
  originalStorageId :: string
  originalImageUrl :: "string option"
  cartoonImageUrl :: "string option"
  status :: string
  createdAt :: int
  updatedAt :: int

text \<open>A job held by the scheduler: the payload of \<^verbatim>\<open>ctx.scheduler.runAfter\<close>.\<close>

record job =
  job_delay :: int
  job_imageUrl :: "string option"
  job_userId :: string
  job_style :: string

text \<open>What a statement throws: an \<^verbatim>\<open>Error\<close> with its message, or any other value.\<close>

datatype js_thrown = ThrownError string | ThrownOther

text \<open>\<^verbatim>\<open>error instanceof Error ? error.message : 'Unknown error'\<close>\<close>

fun thrown_message :: "js_thrown \<Rightarrow> string" where
  "thrown_message (ThrownError m) = m"
| "thrown_message ThrownOther = ''Unknown error''"

text \<open>
  The context of one invocation: the identity the platform resolves for the caller.
\<close>

record ctx =
  identity :: "user_identity option"

definition getUserIdentity :: "ctx \<Rightarrow> user_identity option promise" where
  "getUserIdentity c = Promise (identity c)"

datatype limiter_name = UploadLimiter | ProcessingLimiter | GeneralLimiter

text \<open>
  What an invocation does beyond logging, in order: a query of the images by
  origin-storage reference, a patch of status and \<open>updatedAt\<close> by id, an enqueue statement
  that threw (with what it threw).
\<close>

datatype effect =
    DbQuery string
  | DbPatch string string int
  | EnqueueThrew js_thrown

text \<open>
  The state the module works on: the clock (the successive readings of \<^verbatim>\<open>Date.now()\<close> and
  \<^verbatim>\<open>new Date()\<close>, and how many were made), the table of images in query order, the three
  module-level rate limiters, the module-level audit logger, the jobs the scheduler
  holds, and the trace of effects.
\<close>

record world =
  clock :: "nat \<Rightarrow> int"
  reads :: nat
  images :: "image list"
  limiters :: "limiter_name \<Rightarrow> RateLimiter"
  securityAuditLogger :: SecurityAuditLogger
  scheduled :: "job list"
  effects :: "effect list"

text \<open>The module-level instances, as constructed when the module is loaded.\<close>

fun module_limiters :: "limiter_name \<Rightarrow> RateLimiter" where
  "module_limiters UploadLimiter = new_RateLimiter 60000 5"
| "module_limiters ProcessingLimiter = new_RateLimiter 300000 3"
| "module_limiters GeneralLimiter = new_RateLimiter 60000 20"

definition module_init :: "(nat \<Rightarrow> int) \<Rightarrow> image list \<Rightarrow> world" where
  "module_init clk imgs =
     \<lparr>clock = clk, reads = 0, images = imgs, limiters = module_limiters,
      securityAuditLogger = new_SecurityAuditLogger, scheduled = [], effects = []\<rparr>"

definition Date_now :: "world \<Rightarrow> int \<times> world" where
  "Date_now w = (clock w (reads w), w\<lparr>reads := Suc (reads w)\<rparr>)"

text \<open>\<^verbatim>\<open>securityAuditLogger.log(level, event, details)\<close>: no user id and no address are passed.\<close>

definition audit :: "world \<Rightarrow> log_level \<Rightarrow> string \<Rightarrow> jsvalue \<Rightarrow> world" where
  "audit w lvl ev det =
     (case Date_now w of
        (now, w1) \<Rightarrow>
          w1\<lparr>securityAuditLogger := log (securityAuditLogger w1) now lvl ev det None None\<rparr>)"

definition call_isAllowed :: "limiter_name \<Rightarrow> string \<Rightarrow> world \<Rightarrow> bool \<times> world" where
  "call_isAllowed n identifier w =
     (case Date_now w of
        (now, w1) \<Rightarrow>
          (case isAllowed (limiters w1 n) now identifier of
             (b, rl) \<Rightarrow> (b, w1\<lparr>limiters := (limiters w1)(n := rl)\<rparr>)))"

definition call_getRemainingRequests :: "limiter_name \<Rightarrow> string \<Rightarrow> world \<Rightarrow> int \<times> world" where
  "call_getRemainingRequests n identifier w =
     (case Date_now w of
        (now, w1) \<Rightarrow>
          (case getRemainingRequests (limiters w1 n) now identifier of
             (r, rl) \<Rightarrow> (r, w1\<lparr>limiters := (limiters w1)(n := rl)\<rparr>)))"

definition call_getResetTime :: "limiter_name \<Rightarrow> string \<Rightarrow> world \<Rightarrow> int \<times> world" where
  "call_getResetTime n identifier w =
     (case Date_now w of
        (now, w1) \<Rightarrow>
          (case getResetTime (limiters w1 n) now identifier of
             (r, rl) \<Rightarrow> (r, w1\<lparr>limiters := (limiters w1)(n := rl)\<rparr>)))"

text \<open>
  \<^verbatim>\<open>ctx.db.query("images").filter(q => q.eq(q.field("originalStorageId"), id)).collect()\<close>
\<close>

definition db_query :: "string \<Rightarrow> world \<Rightarrow> image list \<times> world" where
  "db_query sid w =
     (filter (\<lambda>img. originalStorageId img = sid) (images w),
      w\<lparr>effects := effects w @ [DbQuery sid]\<rparr>)"

text \<open>\<^verbatim>\<open>ctx.db.patch(id, {status, updatedAt})\<close>\<close>

definition patch_image :: "string \<Rightarrow> string \<Rightarrow> int \<Rightarrow> image \<Rightarrow> image" where
  "patch_image i st t img = (if image_id img = i then img\<lparr>status := st, updatedAt := t\<rparr> else img)"

definition db_patch :: "string \<Rightarrow> string \<Rightarrow> int \<Rightarrow> world \<Rightarrow> world" where
  "db_patch i st t w =
     w\<lparr>images := map (patch_image i st t) (images w),
       effects := effects w @ [DbPatch i st t]\<rparr>"

text \<open>
  The enqueue statement
  \<^verbatim>\<open>await ctx.scheduler.runAfter(0, internal.image.ImageGen, {...})\<close>. The module imports
  \<^verbatim>\<open>ConvexError\<close>, \<^verbatim>\<open>v\<close>, \<^verbatim>\<open>mutation\<close>, \<^verbatim>\<open>query\<close>, \<^verbatim>\<open>action\<close> and four names of the
  security library, and declares its limiters, \<^verbatim>\<open>withSecurity\<close> and its exports; it neither
  imports nor declares \<^verbatim>\<open>internal\<close>, which is no global either. The arguments of a call are
  evaluated before the call, so evaluating the second argument throws the reference error
  and the scheduler is not called: the statement throws on every evaluation, and the
  \<^verbatim>\<open>return\<close> that follows it in the \<^verbatim>\<open>try\<close> block is never reached.
\<close>

definition internal_reference :: js_thrown where
  "internal_reference = ThrownError ''internal is not defined''"

definition enqueue_generation :: "world \<Rightarrow> js_thrown \<times> world" where
  "enqueue_generation w =
     (internal_reference, w\<lparr>effects := effects w @ [EnqueueThrew internal_reference]\<rparr>)"

subsection \<open>withSecurity\<close>

datatype convex_error = ConvexError string

record security_options =
  rateLimiter :: "limiter_name option"
  requireAuth :: bool
  auditEvent :: "string option"

fun js_opt :: "string option \<Rightarrow> jsvalue" where
  "js_opt None = JUndefined"
| "js_opt (Some s) = JString s"

text \<open>\<^verbatim>\<open>identity?.subject\<close>\<close>

fun js_subject :: "user_identity option \<Rightarrow> jsvalue" where
  "js_subject None = JUndefined"
| "js_subject (Some i) = JString (subject i)"

text \<open>
  \<^verbatim>\<open>ctx.auth?.getUserIdentity?.()?.subject || 'anonymous'\<close>: the call is not awaited, the
  property is read on the promise.
\<close>

definition rate_limit_identifier :: "ctx \<Rightarrow> string" where
  "rate_limit_identifier c =
     (case promise_subject (getUserIdentity c) of
        None \<Rightarrow> ''anonymous''
      | Some s \<Rightarrow> if s = [] then ''anonymous'' else s)"

text \<open>
  The three stages before the handler runs. \<open>hname\<close> is \<^verbatim>\<open>handler.name\<close> and \<open>tys\<close> is
  \<^verbatim>\<open>args.map(arg => typeof arg)\<close>. The audit stage runs when the event name is truthy
  (given and not empty).
\<close>

definition auth_stage ::
  "security_options \<Rightarrow> string \<Rightarrow> string list \<Rightarrow> ctx \<Rightarrow> world \<Rightarrow> (convex_error + unit) \<times> world" where
  "auth_stage opts hname tys c w =
     (if requireAuth opts then
        (case await (getUserIdentity c) of
           None \<Rightarrow>
             (Inl (ConvexError ''Authentication required''),
              audit w Warning ''unauthorized_access_attempt''
                (JObject [(''function'', JString hname), (''args'', JStrings tys)]))
         | Some i \<Rightarrow> (Inr (), w))
      else (Inr (), w))"

definition rate_limit_stage ::
  "security_options \<Rightarrow> string \<Rightarrow> ctx \<Rightarrow> world \<Rightarrow> (convex_error + unit) \<times> world" where
  "rate_limit_stage opts hname c w =
     (case rateLimiter opts of
        None \<Rightarrow> (Inr (), w)
      | Some n \<Rightarrow>
          (let identifier = rate_limit_identifier c in
           case call_isAllowed n identifier w of
             (True, w1) \<Rightarrow> (Inr (), w1)
           | (False, w1) \<Rightarrow>
               (case call_getRemainingRequests n identifier w1 of
                  (remaining, w2) \<Rightarrow>
                    (case call_getResetTime n identifier w2 of
                       (reset, w3) \<Rightarrow>
                         (Inl (ConvexError ''Rate limit exceeded. Please try again later.''),
                          audit w3 Warning ''rate_limit_exceeded''
                            (JObject [(''function'', JString hname),
                                      (''identifier'', JString identifier),
                                      (''remainingRequests'', JNumber remaining),
                                      (''resetTime'', JNumber reset)]))))))"

definition audit_stage :: "security_options \<Rightarrow> string \<Rightarrow> ctx \<Rightarrow> world \<Rightarrow> world" where
  "audit_stage opts hname c w =
     (case auditEvent opts of
        None \<Rightarrow> w
      | Some ev \<Rightarrow>
          if ev = [] then w
          else
            (case Date_now w of
               (t, w1) \<Rightarrow>
                 audit w1 Info ev
                   (JObject [(''function'', JString hname),
                             (''userId'', js_subject (await (getUserIdentity c))),
                             (''timestamp'', JISOString t)])))"

fun convex_message :: "convex_error \<Rightarrow> string" where
  "convex_message (ConvexError m) = m"

definition withSecurity ::
  "string \<Rightarrow> (ctx \<Rightarrow> 'a \<Rightarrow> world \<Rightarrow> (convex_error + 'r) \<times> world) \<Rightarrow> security_options
     \<Rightarrow> string list \<Rightarrow> ctx \<Rightarrow> 'a \<Rightarrow> world \<Rightarrow> (convex_error + 'r) \<times> world" where
  "withSecurity hname handler opts tys c args w =
     (case auth_stage opts hname tys c w of
        (Inl e, w1) \<Rightarrow> (Inl e, w1)
      | (Inr u, w1) \<Rightarrow>
          (case rate_limit_stage opts hname c w1 of
             (Inl e, w2) \<Rightarrow> (Inl e, w2)
           | (Inr u, w2) \<Rightarrow>
               (case handler c args (audit_stage opts hname c w2) of
                  (Inr r, w3) \<Rightarrow> (Inr r, w3)
                | (Inl e, w3) \<Rightarrow>
                    (Inl e,
                     audit w3 Error ''function_execution_error''
                       (JObject [(''function'', JString hname),
                                 (''error'', JString (convex_message e)),
                                 (''userId'', js_subject (await (getUserIdentity c))),
                                 (''args'', JStrings tys)])))))"

subsection \<open>secureCartoonifyImage\<close>

record cartoonify_args =
  storageId :: string
  style :: string
  userAgent :: "string option"
  ipAddress :: "string option"

record cartoonify_result =
  success :: bool
  result_status :: string

definition allowedStyles :: "string list" where
  "allowedStyles = [''simpsons'', ''studio-ghibli'', ''family-guy'', ''disney'', ''anime'',
                    ''comic-book'', ''south-park'']"

text \<open>
  The rest of the handler once the record is resolved, owned and past the status gate: the
  patch to "processing", the audit entry, the enqueue statement in its \<^verbatim>\<open>try\<close>, and the
  \<^verbatim>\<open>catch\<close> block.
\<close>

definition start_processing ::
  "ctx \<Rightarrow> cartoonify_args \<Rightarrow> user_identity \<Rightarrow> image \<Rightarrow> world
     \<Rightarrow> (convex_error + cartoonify_result) \<times> world" where
  "start_processing c args i img w =
     (case Date_now w of
        (t1, w1) \<Rightarrow>
          (let w2 = db_patch (image_id img) ''processing'' t1 w1 in
           case Date_now w2 of
             (t2, w3) \<Rightarrow>
               (let w4 = audit w3 Info ''image_processing_started''
                           (JObject [(''userId'', JString (subject i)),
                                     (''imageId'', JString (image_id img)),
                                     (''style'', JString (style args)),
                                     (''userAgent'', js_opt (userAgent args)),
                                     (''ipAddress'', js_opt (ipAddress args)),
                                     (''timestamp'', JISOString t2)])
                in case enqueue_generation w4 of
                     (err, w5) \<Rightarrow>
                       (case Date_now w5 of
                          (t3, w6) \<Rightarrow>
                            (let w7 = db_patch (image_id img) ''pending'' t3 w6 in
                             case Date_now w7 of
                               (t4, w8) \<Rightarrow>
                                 (Inl (ConvexError ''Failed to schedule image generation''),
                                  audit w8 Error ''image_processing_scheduling_failed''
                                    (JObject [(''userId'', JString (subject i)),
                                              (''imageId'', JString (image_id img)),
                                              (''error'', JString (thrown_message err)),
                                              (''timestamp'', JISOString t4)])))))))"

definition cartoonify_handler ::
  "ctx \<Rightarrow> cartoonify_args \<Rightarrow> world \<Rightarrow> (convex_error + cartoonify_result) \<times> world" where
  "cartoonify_handler c args w =
     (case await (getUserIdentity c) of
        None \<Rightarrow> (Inl (ConvexError ''Authentication required''), w)
      | Some i \<Rightarrow>
          if style args \<notin> set allowedStyles then
            (Inl (ConvexError ''Invalid cartoon style''),
             audit w Warning ''invalid_style_parameter''
               (JObject [(''userId'', JString (subject i)),
                         (''style'', JString (style args)),
                         (''userAgent'', js_opt (userAgent args)),
                         (''ipAddress'', js_opt (ipAddress args))]))
          else
            (case db_query (storageId args) w of
               ([], w1) \<Rightarrow> (Inl (ConvexError ''Image record not found''), w1)
             | (img # rest, w1) \<Rightarrow>
                 if userId img \<noteq> subject i then
                   (Inl (ConvexError ''Unauthorized access to image''),
                    audit w1 Warning ''unauthorized_image_access''
                      (JObject [(''userId'', JString (subject i)),
                                (''imageId'', JString (image_id img)),
                                (''imageOwner'', JString (userId img)),
                                (''userAgent'', js_opt (userAgent args)),
                                (''ipAddress'', js_opt (ipAddress args))]))
                 else if status img = ''processing'' then
                   (Inr \<lparr>success = True, result_status = ''processing''\<rparr>, w1)
                 else if status img = ''completed'' \<and> truthy_string (cartoonImageUrl img) then
                   (Inr \<lparr>success = True, result_status = ''completed''\<rparr>, w1)
                 else start_processing c args i img w1))"

text \<open>
  The exported mutation: the handler is an anonymous function (its \<^verbatim>\<open>name\<close> is the empty
  string) wrapped with the processing limiter and the audit event; it is called with one
  argument, the object of the arguments.
\<close>

definition cartoonify_options :: security_options where
  "cartoonify_options =
     \<lparr>rateLimiter = Some ProcessingLimiter, requireAuth = True,
      auditEvent = Some ''image_processing_request''\<rparr>"

definition secureCartoonifyImage ::
  "ctx \<Rightarrow> cartoonify_args \<Rightarrow> world \<Rightarrow> (convex_error + cartoonify_result) \<times> world" where
  "secureCartoonifyImage = withSecurity [] cartoonify_handler cartoonify_options [''object'']"

text \<open>The errors of the specification, as the code throws them.\<close>

definition AuthenticationRequired :: convex_error where
  "AuthenticationRequired = ConvexError ''Authentication required''"

definition RateLimited :: convex_error where
  "RateLimited = ConvexError ''Rate limit exceeded. Please try again later.''"

definition InvalidStyle :: convex_error where
  "InvalidStyle = ConvexError ''Invalid cartoon style''"

definition RecordNotFound :: convex_error where
  "RecordNotFound = ConvexError ''Image record not found''"

definition Unauthorized :: convex_error where
  "Unauthorized = ConvexError ''Unauthorized access to image''"

definition SchedulingFailed :: convex_error where
  "SchedulingFailed = ConvexError ''Failed to schedule image generation''"

text \<open>The record the handler resolves for an origin-storage reference: the first match.\<close>

definition resolved :: "world \<Rightarrow> string \<Rightarrow> image option" where
  "resolved w sid =
     (case filter (\<lambda>img. originalStorageId img = sid) (images w) of
        [] \<Rightarrow> None
      | img # rest \<Rightarrow> Some img)"

text \<open>The effects of a run: what the trace holds after it beyond what it held before.\<close>

definition new_effects :: "world \<Rightarrow> world \<Rightarrow> effect list" where
  "new_effects w w' = drop (length (effects w)) (effects w')"

text \<open>
  The processing limiter admits a call made in this state: what \<open>isAllowed\<close> answers at
  the next clock reading for the identifier the middleware computes.
\<close>

definition admits :: "ctx \<Rightarrow> world \<Rightarrow> bool" where
  "admits c w =
     fst (isAllowed (limiters w ProcessingLimiter) (clock w (reads w)) (rate_limit_identifier c))"

subsection \<open>Example callers, records and states\<close>

definition caller :: "string \<Rightarrow> ctx" where
  "caller s = \<lparr>identity = Some \<lparr>subject = s\<rparr>\<rparr>"

definition example_image :: "string \<Rightarrow> string \<Rightarrow> string \<Rightarrow> image" where
  "example_image i owner sid =
     \<lparr>image_id = i, userId = owner, originalStorageId = sid,
      originalImageUrl = Some ''https://files/upload'', cartoonImageUrl = None,
      status = ''pending'', createdAt = 5, updatedAt = 5\<rparr>"

text \<open>
  The module as loaded, a clock that advances by one millisecond at each reading, and two
  uploaded images: one of alice, one of bob.
\<close>

definition example_world :: world where
  "example_world = module_init (\<lambda>n. 1000 + int n)
     [example_image ''img1'' ''alice'' ''s1'', example_image ''img2'' ''bob'' ''s2'']"

definition example_args :: "string \<Rightarrow> string \<Rightarrow> cartoonify_args" where
  "example_args sid sty = \<lparr>storageId = sid, style = sty, userAgent = None, ipAddress = None\<rparr>"

text \<open>The same module and clock with one image of alice that is being processed.\<close>

definition in_flight_world :: world where
  "in_flight_world = module_init (\<lambda>n. 1000 + int n)
     [(example_image ''img1'' ''alice'' ''s1'')\<lparr>status := ''processing''\<rparr>]"

text \<open>The state after three successive invocations by the same caller.\<close>

definition after_three_calls :: "ctx \<Rightarrow> cartoonify_args \<Rightarrow> world \<Rightarrow> world" where
  "after_three_calls c args w =
     snd (secureCartoonifyImage c args
       (snd (secureCartoonifyImage c args (snd (secureCartoonifyImage c args w)))))"

section \<open>Properties of the rate limiter\<close>

lemma isAllowed_config [simp]:
  "windowMs (snd (isAllowed rl now i)) = windowMs rl"
  "maxRequests (snd (isAllowed rl now i)) = maxRequests rl"
  by (simp_all add: isAllowed_def Let_def)

lemma stored_after_allowed:
  assumes "fst (isAllowed rl now i)"
  shows "stored (snd (isAllowed rl now i)) i = validRequests rl now i @ [now]"
    and "int (length (validRequests rl now i)) < maxRequests rl"
  using assms by (simp_all add: isAllowed_def Let_def stored_def split: if_splits)

lemma filter_window_mono:
  fixes W :: int
  assumes "t \<le> u"
  shows "filter (\<lambda>x. u - x < W) (filter (\<lambda>x. t - x < W) xs) = filter (\<lambda>x. u - x < W) xs"
proof -
  have "\<And>x. u - x < W \<Longrightarrow> t - x < W" using assms by linarith
  then show ?thesis by (induction xs) auto
qed

text \<open>
  After a run of admitted calls at non-decreasing clock readings that all lie within one
  window, the stored array is what was still valid at the last call followed by the
  readings of the run, and that array is no longer than the limit.
\<close>

lemma stored_after_allowed_seq:
  assumes "ts \<noteq> []"
    and "sorted (ts @ [lim])"
    and "\<forall>t\<in>set ts. lim - t < windowMs rl"
    and "fst (isAllowed_seq rl i ts) = replicate (length ts) True"
  shows "stored (snd (isAllowed_seq rl i ts)) i
           = filter (\<lambda>x. last ts - x < windowMs rl) (stored rl i) @ ts
         \<and> int (length (filter (\<lambda>x. last ts - x < windowMs rl) (stored rl i))) + int (length ts)
             \<le> maxRequests rl"
  using assms
proof (induction ts arbitrary: rl)
  case Nil
  then show ?case by simp
next
  case (Cons t ts)
  obtain b rl1 where step: "isAllowed rl t i = (b, rl1)" by (cases "isAllowed rl t i")
  obtain bs rl2 where rest: "isAllowed_seq rl1 i ts = (bs, rl2)" by (cases "isAllowed_seq rl1 i ts")
  from Cons.prems(4) step rest have b: "b" and bs: "bs = replicate (length ts) True"
    by simp_all
  from step b have allowed: "fst (isAllowed rl t i)" by simp
  have rl1: "rl1 = snd (isAllowed rl t i)" using step by simp
  have st1: "stored rl1 i = validRequests rl t i @ [t]"
    and cnt1: "int (length (validRequests rl t i)) < maxRequests rl"
    using stored_after_allowed[OF allowed] rl1 by simp_all
  have W1: "windowMs rl1 = windowMs rl" and M1: "maxRequests rl1 = maxRequests rl"
    using rl1 by simp_all
  show ?case
  proof (cases "ts = []")
    case True
    then show ?thesis using step rest st1 cnt1 by (simp add: validRequests_def)
  next
    case False
    have sorted': "sorted (ts @ [lim])" using Cons.prems(2) by simp
    have win': "\<forall>x\<in>set ts. lim - x < windowMs rl1" using Cons.prems(3) W1 by simp
    have all': "fst (isAllowed_seq rl1 i ts) = replicate (length ts) True"
      using rest bs by simp
    note IH = Cons.IH[OF False sorted' win' all']
    have t_le: "t \<le> last ts" using Cons.prems(2) False by (simp add: sorted_append)
    have last_le: "last ts \<le> lim" using Cons.prems(2) False by (simp add: sorted_append)
    have "lim - t < windowMs rl" using Cons.prems(3) by simp
    with last_le have keep: "last ts - t < windowMs rl" by linarith
    have flt: "filter (\<lambda>x. last ts - x < windowMs rl) (stored rl1 i)
                 = filter (\<lambda>x. last ts - x < windowMs rl) (stored rl i) @ [t]"
      using st1 keep filter_window_mono[OF t_le, of "windowMs rl" "stored rl i"]
      by (simp add: validRequests_def)
    from IH flt show ?thesis using step rest False W1 M1 by simp
  qed
qed

lemma validRequests_unfold:
  "validRequests rl now i = filter (\<lambda>x. now - x < windowMs rl) (stored rl i)"
  by (simp add: validRequests_def)

lemma isAllowed_seq_config [simp]:
  "windowMs (snd (isAllowed_seq rl i ts)) = windowMs rl"
  "maxRequests (snd (isAllowed_seq rl i ts)) = maxRequests rl"
  by (induction ts arbitrary: rl; simp split: prod.splits;
      metis isAllowed_config snd_conv)+

lemma rejected_unchanged:
  "\<not> fst (isAllowed rl now i) \<Longrightarrow> snd (isAllowed rl now i) = rl"
  by (simp add: isAllowed_def Let_def split: if_splits)

lemma allowed_iff:
  "fst (isAllowed rl now i) \<longleftrightarrow> int (length (validRequests rl now i)) < maxRequests rl"
  by (simp add: isAllowed_def Let_def)

text \<open>
  Claim C7. \<open>isAllowed\<close> keeps the stored timestamps \<open>t\<close> with \<open>now - t < windowMs\<close>; when
  fewer than \<open>maxRequests\<close> remain it stores them followed by \<open>now\<close> and answers true,
  otherwise it answers false and stores nothing. Consequently, after \<open>maxRequests\<close> admitted
  calls (at least one) at non-decreasing clock readings that all lie within \<open>windowMs\<close> of
  the next call, that next call is refused; and a call made once \<open>windowMs\<close> has elapsed
  since each of them is admitted again.
\<close>

theorem isAllowed_window_limit:
  "isAllowed rl now i =
     (if int (length (filter (\<lambda>t. now - t < windowMs rl) (stored rl i))) < maxRequests rl
      then (True, rl\<lparr>requests :=
              (requests rl)(i \<mapsto> filter (\<lambda>t. now - t < windowMs rl) (stored rl i) @ [now])\<rparr>)
      else (False, rl))
   \<and> (ts \<noteq> [] \<and> int (length ts) = maxRequests rl \<and> sorted (ts @ [now])
        \<and> (\<forall>t\<in>set ts. now - t < windowMs rl)
        \<and> fst (isAllowed_seq rl i ts) = replicate (length ts) True
      \<longrightarrow> fst (isAllowed (snd (isAllowed_seq rl i ts)) now i) = False
          \<and> ((\<forall>t\<in>set ts. windowMs rl \<le> later - t)
               \<longrightarrow> fst (isAllowed (snd (isAllowed (snd (isAllowed_seq rl i ts)) now i)) later i)
                     = True))"
proof (intro conjI impI)
  show "isAllowed rl now i =
     (if int (length (filter (\<lambda>t. now - t < windowMs rl) (stored rl i))) < maxRequests rl
      then (True, rl\<lparr>requests :=
              (requests rl)(i \<mapsto> filter (\<lambda>t. now - t < windowMs rl) (stored rl i) @ [now])\<rparr>)
      else (False, rl))"
    by (simp add: isAllowed_def validRequests_def Let_def)
next
  assume H: "ts \<noteq> [] \<and> int (length ts) = maxRequests rl \<and> sorted (ts @ [now])
        \<and> (\<forall>t\<in>set ts. now - t < windowMs rl)
        \<and> fst (isAllowed_seq rl i ts) = replicate (length ts) True"
  define rl' where "rl' = snd (isAllowed_seq rl i ts)"
  from H have ne: "ts \<noteq> []" and len: "int (length ts) = maxRequests rl"
    and srt: "sorted (ts @ [now])" and win: "\<forall>t\<in>set ts. now - t < windowMs rl"
    and adm: "fst (isAllowed_seq rl i ts) = replicate (length ts) True"
    by simp_all
  from stored_after_allowed_seq[OF ne srt win adm] len
  have st: "stored rl' i = ts" by (simp add: rl'_def)
  have W: "windowMs rl' = windowMs rl" and M: "maxRequests rl' = maxRequests rl"
    by (simp_all add: rl'_def)
  have "filter (\<lambda>x. now - x < windowMs rl) ts = ts" using win by (simp add: filter_id_conv)
  then have "validRequests rl' now i = ts" by (simp add: validRequests_unfold st W)
  then have rej: "\<not> fst (isAllowed rl' now i)" using len M by (simp add: allowed_iff)
  then show "fst (isAllowed (snd (isAllowed_seq rl i ts)) now i) = False"
    by (simp add: rl'_def)
  assume el: "\<forall>t\<in>set ts. windowMs rl \<le> later - t"
  have same: "snd (isAllowed rl' now i) = rl'" using rej by (rule rejected_unchanged)
  have "filter (\<lambda>x. later - x < windowMs rl) ts = []" using el by (auto simp: filter_empty_conv)
  then have "validRequests rl' later i = []" by (simp add: validRequests_unfold st W)
  moreover have "0 < maxRequests rl" using ne len by (cases ts) auto
  ultimately have "fst (isAllowed rl' later i)" using M by (simp add: allowed_iff)
  then show "fst (isAllowed (snd (isAllowed (snd (isAllowed_seq rl i ts)) now i)) later i) = True"
    using same by (simp add: rl'_def)
qed

theorem isAllowed_window_limit_witness:
  "fst (isAllowed_seq (new_RateLimiter 300000 3) ''u'' [0, 1000, 2000]) = [True, True, True]
   \<and> fst (isAllowed (snd (isAllowed_seq (new_RateLimiter 300000 3) ''u'' [0, 1000, 2000]))
            3000 ''u'') = False
   \<and> fst (isAllowed (snd (isAllowed (snd (isAllowed_seq (new_RateLimiter 300000 3) ''u''
            [0, 1000, 2000])) 3000 ''u'')) 302000 ''u'') = True"
proof -
  have adm: "fst (isAllowed_seq (new_RateLimiter 300000 3) ''u'' [0, 1000, 2000])
               = [True, True, True]"
    by (simp add: isAllowed_def validRequests_def stored_def new_RateLimiter_def Let_def)
  have hyp: "[0, 1000, 2000] \<noteq> ([]::int list)
      \<and> int (length [0::int, 1000, 2000]) = maxRequests (new_RateLimiter 300000 3)
      \<and> sorted ([0::int, 1000, 2000] @ [3000])
      \<and> (\<forall>t\<in>set [0::int, 1000, 2000]. 3000 - t < windowMs (new_RateLimiter 300000 3))
      \<and> fst (isAllowed_seq (new_RateLimiter 300000 3) ''u'' [0, 1000, 2000])
          = replicate (length [0::int, 1000, 2000]) True"
    using adm by (simp add: new_RateLimiter_def numeral_3_eq_3)
  have el: "\<forall>t\<in>set [0::int, 1000, 2000]. windowMs (new_RateLimiter 300000 3) \<le> 302000 - t"
    by (simp add: new_RateLimiter_def)
  from isAllowed_window_limit[of "new_RateLimiter 300000 3" 3000 "''u''" "[0, 1000, 2000]" 302000]
    hyp el adm
  show ?thesis by blast
qed

text \<open>
  Claim C10. A refused \<open>isAllowed\<close> call returns the limiter as it was (the pruned array is
  not stored), and \<open>getRemainingRequests\<close> and \<open>getResetTime\<close> return it as it was; so
  every later answer of the three operations, for any identifier and clock reading, is the
  answer the limiter would have given without that call.
\<close>

theorem rejected_and_queries_keep_state:
  "(fst (isAllowed rl now i) = False \<longrightarrow>
      snd (isAllowed rl now i) = rl
      \<and> isAllowed (snd (isAllowed rl now i)) now' i' = isAllowed rl now' i'
      \<and> getRemainingRequests (snd (isAllowed rl now i)) now' i' = getRemainingRequests rl now' i'
      \<and> getResetTime (snd (isAllowed rl now i)) now' i' = getResetTime rl now' i')
   \<and> snd (getRemainingRequests rl now i) = rl
   \<and> snd (getResetTime rl now i) = rl
   \<and> isAllowed (snd (getRemainingRequests rl now i)) now' i' = isAllowed rl now' i'
   \<and> isAllowed (snd (getResetTime rl now i)) now' i' = isAllowed rl now' i'
   \<and> getRemainingRequests (snd (getResetTime rl now i)) now' i' = getRemainingRequests rl now' i'
   \<and> getResetTime (snd (getRemainingRequests rl now i)) now' i' = getResetTime rl now' i'"
proof -
  have q1: "snd (getRemainingRequests rl now i) = rl"
    by (simp add: getRemainingRequests_def Let_def)
  have q2: "snd (getResetTime rl now i) = rl"
    by (simp add: getResetTime_def Let_def)
  show ?thesis using rejected_unchanged[of rl now i] q1 q2 by simp
qed

theorem rejected_and_queries_keep_state_witness:
  "fst (isAllowed \<lparr>requests = [''u'' \<mapsto> [0, 95, 96]], windowMs = 10, maxRequests = 2\<rparr> 100 ''u'')
     = False
   \<and> stored (snd (isAllowed \<lparr>requests = [''u'' \<mapsto> [0, 95, 96]], windowMs = 10, maxRequests = 2\<rparr>
        100 ''u'')) ''u'' = [0, 95, 96]"
proof -
  let ?rl = "\<lparr>requests = [''u'' \<mapsto> [0, 95, 96]], windowMs = 10, maxRequests = 2\<rparr>"
  have rej: "fst (isAllowed ?rl 100 ''u'') = False"
    by (simp add: isAllowed_def validRequests_def stored_def Let_def)
  from rejected_and_queries_keep_state[of ?rl 100 "''u''" 100 "''u''"] rej
  have "snd (isAllowed ?rl 100 ''u'') = ?rl" by blast
  then show ?thesis using rej by (simp add: stored_def)
qed

section \<open>Properties of the audit logger\<close>

lemma slice_last_length: "length (slice_last n xs) \<le> n"
  by (simp add: slice_last_def)

lemma slice_last_append:
  "slice_last n (slice_last n xs @ ys) = slice_last n (xs @ ys)"
proof -
  have "length xs + length ys - (length xs - n + n) + (length xs - n) = length xs + length ys - n"
    by arith
  then show ?thesis by (simp add: slice_last_def)
qed

lemma logEntry_eta:
  "\<lparr>timestamp = timestamp e, level = level e, event = event e,
     details = details e, log_userId = log_userId e, ip = ip e\<rparr> = (e::logEntry)"
  by (cases e) simp

lemma logs_log: "logs (log lg now lvl ev det uid ipaddr)
    = slice_last 1000 (logs lg @ [\<lparr>timestamp = now, level = lvl, event = ev, details = det,
                                    log_userId = uid, ip = ipaddr\<rparr>])"
  by (simp add: log_def Let_def slice_last_def)

lemma logs_log_entry: "logs (log_entry e lg) = slice_last 1000 (logs lg @ [e])"
  by (simp add: log_entry_def logs_log logEntry_eta)

lemma logs_log_all:
  "length (logs lg) \<le> 1000 \<Longrightarrow> logs (log_all es lg) = slice_last 1000 (logs lg @ es)"
proof (induction es arbitrary: lg)
  case Nil
  then show ?case by (simp add: log_all_def slice_last_def)
next
  case (Cons e es)
  have "length (logs (log_entry e lg)) \<le> 1000"
    by (simp add: logs_log_entry slice_last_length)
  from Cons.IH[OF this] show ?case
    by (simp add: log_all_def logs_log_entry slice_last_append)
qed

lemma getLogs_filter: "getLogs lg flt = filter (matches_given flt) (logs lg)"
proof (cases flt)
  case None
  then show ?thesis by (simp add: getLogs_def matches_given_def)
next
  case (Some f)
  have lv: "(if truthy_string (f_level f)
             then filter (\<lambda>e. Some (level_name (level e)) = f_level f) xs else xs)
            = filter (\<lambda>e. case f_level f of None \<Rightarrow> True
                 | Some l \<Rightarrow> l = [] \<or> l = (case level e of Info \<Rightarrow> ''info''
                     | Warning \<Rightarrow> ''warning'' | Error \<Rightarrow> ''error'')) xs" for xs
  proof (cases "f_level f")
    case None
    then show ?thesis by (simp add: truthy_string_def)
  next
    case (Some l)
    have "level_name v = (case v of Info \<Rightarrow> ''info'' | Warning \<Rightarrow> ''warning''
            | Error \<Rightarrow> ''error'')" for v
      by (cases v) simp_all
    then show ?thesis using Some
      by (cases "l = []") (auto simp: truthy_string_def intro: filter_cong)
  qed
  have us: "(if truthy_string (f_userId f)
             then filter (\<lambda>e. log_userId e = f_userId f) xs else xs)
            = filter (\<lambda>e. case f_userId f of None \<Rightarrow> True
                 | Some u \<Rightarrow> u = [] \<or> log_userId e = Some u) xs" for xs
    by (cases "f_userId f") (auto simp: truthy_string_def intro: filter_cong)
  have si: "(case f_since f of Some since \<Rightarrow> filter (\<lambda>e. since \<le> timestamp e) xs | None \<Rightarrow> xs)
            = filter (\<lambda>e. case f_since f of None \<Rightarrow> True | Some d \<Rightarrow> d \<le> timestamp e) xs"
    for xs
    by (cases "f_since f") simp_all
  show ?thesis
    using Some
    by (simp add: getLogs_def Let_def lv us si) (auto simp: matches_given_def intro: filter_cong)
qed

text \<open>
  Claim C9, as amended. After any sequence of \<open>log\<close> calls on the logger as constructed, the
  log holds at most 1000 entries; it holds the last 1000 entries logged (all of them when
  fewer were logged), in the order they were logged, so the oldest are dropped first; and
  \<open>getLogs\<close> returns, in that order, the retained entries that match the filters, where a
  level or user filter given as the empty string is ignored.
\<close>

theorem audit_log_bounded_fifo:
  "length (logs (log_all es new_SecurityAuditLogger)) \<le> 1000
   \<and> logs (log_all es new_SecurityAuditLogger) = drop (length es - 1000) es
   \<and> getLogs (log_all es new_SecurityAuditLogger) flt
       = filter (matches_given flt) (drop (length es - 1000) es)"
proof -
  have "logs (log_all es new_SecurityAuditLogger) = slice_last 1000 es"
    using logs_log_all[of new_SecurityAuditLogger es] by (simp add: new_SecurityAuditLogger_def)
  then show ?thesis by (simp add: getLogs_filter slice_last_def)
qed

text \<open>
  Three entries and a filter on level, user and date that keeps the last one; and 1001
  entries, of which the first is dropped.
\<close>

theorem audit_log_bounded_fifo_witness:
  "getLogs (log_all [example_entry Info (Some ''alice'') 10,
                     example_entry Warning (Some ''bob'') 20,
                     example_entry Warning (Some ''alice'') 30] new_SecurityAuditLogger)
           (Some \<lparr>f_level = Some ''warning'', f_userId = Some ''alice'', f_since = Some 15\<rparr>)
     = [example_entry Warning (Some ''alice'') 30]
   \<and> getLogs (log_all [example_entry Info (Some ''alice'') 10,
                       example_entry Warning (Some ''bob'') 20,
                       example_entry Warning (Some ''alice'') 30] new_SecurityAuditLogger)
           (Some \<lparr>f_level = None, f_userId = None, f_since = Some 15\<rparr>)
     = [example_entry Warning (Some ''bob'') 20, example_entry Warning (Some ''alice'') 30]
   \<and> logs (log_all (example_entry Error None 1 # replicate 1000 (example_entry Info None 2))
              new_SecurityAuditLogger)
     = replicate 1000 (example_entry Info None 2)"
proof -
  let ?es = "[example_entry Info (Some ''alice'') 10, example_entry Warning (Some ''bob'') 20,
              example_entry Warning (Some ''alice'') 30]"
  let ?f = "\<lparr>f_level = Some ''warning'', f_userId = Some ''alice'', f_since = Some 15\<rparr>"
  let ?g = "\<lparr>f_level = None, f_userId = None, f_since = Some 15\<rparr>"
  have a: "getLogs (log_all ?es new_SecurityAuditLogger) (Some ?f)
             = [example_entry Warning (Some ''alice'') 30]"
    using audit_log_bounded_fifo[of ?es "Some ?f"]
    by (simp add: matches_given_def example_entry_def)
  have b: "getLogs (log_all ?es new_SecurityAuditLogger) (Some ?g)
             = [example_entry Warning (Some ''bob'') 20, example_entry Warning (Some ''alice'') 30]"
    using audit_log_bounded_fifo[of ?es "Some ?g"]
    by (simp add: matches_given_def example_entry_def)
  have n: "length (example_entry Error None 1 # replicate 1000 (example_entry Info None 2)) - 1000
             = Suc 0"
    by simp
  have c: "logs (log_all (example_entry Error None 1 # replicate 1000 (example_entry Info None 2))
              new_SecurityAuditLogger)
     = replicate 1000 (example_entry Info None 2)"
    using audit_log_bounded_fifo[of "example_entry Error None 1
             # replicate 1000 (example_entry Info None 2)" None]
    by (simp only: n drop_Suc_Cons drop_0)
  from a b c show ?thesis by simp
qed

text \<open>
  The claim as stated fails: a user filter given as the empty string does not select the
  entries whose user is the empty string. \<open>getLogs\<close> ignores it and returns an entry of
  alice, which does not match the filter; and likewise for the level.
\<close>

theorem getLogs_ignores_empty_filter:
  "getLogs (log_all [example_entry Info (Some ''alice'') 10] new_SecurityAuditLogger)
           (Some \<lparr>f_level = None, f_userId = Some [], f_since = None\<rparr>)
     = [example_entry Info (Some ''alice'') 10]
   \<and> log_userId (example_entry Info (Some ''alice'') 10) \<noteq> Some []
   \<and> getLogs (log_all [example_entry Info (Some ''alice'') 10] new_SecurityAuditLogger)
           (Some \<lparr>f_level = Some [], f_userId = None, f_since = None\<rparr>)
     = [example_entry Info (Some ''alice'') 10]
   \<and> level_name (level (example_entry Info (Some ''alice'') 10)) \<noteq> []"
  by (simp add: getLogs_def truthy_string_def log_all_def logs_log_entry slice_last_def
      new_SecurityAuditLogger_def example_entry_def)

section \<open>Properties of the retry wrapper\<close>

declare withRetry_loop.simps [simp del]

lemma isl_operation:
  assumes "isl (fst (operation s))"
  obtains err s' where "operation s = (Inl err, s')"
  using assms by (cases "operation s"; cases "fst (operation s)") auto

lemma loop_success:
  "int (a + k) \<le> m \<Longrightarrow> (\<forall>j<k. isl (fst (operation (state_before operation j s)))) \<Longrightarrow>
   fst (operation (state_before operation k s)) = Inr v \<Longrightarrow>
   withRetry_loop operation m d a le s
     = (Inr v, snd (operation (state_before operation k s)), backoff_trace d a k)"
proof (induction k arbitrary: a s le)
  case 0
  then show ?case
    by (subst withRetry_loop.simps) (auto simp: backoff_trace_def split: prod.splits sum.splits)
next
  case (Suc k)
  from Suc.prems(2) have "isl (fst (operation s))" by fastforce
  then obtain err s' where op: "operation s = (Inl err, s')" by (rule isl_operation)
  have p1: "int (Suc a + k) \<le> m" using Suc.prems(1) by simp
  have p2: "\<forall>j<k. isl (fst (operation (state_before operation j s')))"
    using Suc.prems(2) op by (metis Suc_less_eq state_before.simps(2) snd_conv)
  have p3: "fst (operation (state_before operation k s')) = Inr v"
    using Suc.prems(3) op by simp
  note IH = Suc.IH[OF p1 p2 p3, of "Some err"]
  have lt: "int a < m" using Suc.prems(1) by simp
  show ?case
    using lt op IH
    by (subst withRetry_loop.simps) (simp add: backoff_trace_def upt_rec[of a])
qed

lemma loop_fail:
  "int (a + k) = m \<Longrightarrow> (\<forall>j\<le>k. isl (fst (operation (state_before operation j s)))) \<Longrightarrow>
   withRetry_loop operation m d a le s
     = (Inl (Some (projl (fst (operation (state_before operation k s))))),
        snd (operation (state_before operation k s)), backoff_trace d a k)"
proof (induction k arbitrary: a s le)
  case 0
  from 0(2) have "isl (fst (operation s))" by simp
  then obtain err s' where op: "operation s = (Inl err, s')" by (rule isl_operation)
  with 0 show ?case
    by (subst withRetry_loop.simps) (auto simp: backoff_trace_def)
next
  case (Suc k)
  from Suc.prems(2) have "isl (fst (operation s))" by fastforce
  then obtain err s' where op: "operation s = (Inl err, s')" by (rule isl_operation)
  have p1: "int (Suc a + k) = m" using Suc.prems(1) by simp
  have p2: "\<forall>j\<le>k. isl (fst (operation (state_before operation j s')))"
    using Suc.prems(2) op by (metis Suc_le_mono state_before.simps(2) snd_conv)
  note IH = Suc.IH[OF p1 p2, of "Some err"]
  have lt: "int a < m" using Suc.prems(1) by simp
  show ?case
    using lt op IH
    by (subst withRetry_loop.simps) (simp add: backoff_trace_def upt_rec[of a])
qed

lemma invocations_backoff_trace: "invocations (backoff_trace d a k) = Suc k"
proof -
  have "length (filter (\<lambda>e. e = Invoked) (concat (map (\<lambda>i. [Invoked, Waited (d * 2 ^ i)]) xs)))
          = length xs" for xs :: "nat list"
    by (induction xs) simp_all
  then show ?thesis by (simp add: invocations_def backoff_trace_def)
qed

text \<open>
  Claim C8. For \<open>maxRetries \<ge> 0\<close>: when every attempt fails, \<open>withRetry\<close> invokes the
  operation \<open>maxRetries + 1\<close> times, waits \<open>delay * 2 ^ attempt\<close> after the failed attempt
  number \<open>attempt\<close> and before the next one, and throws the error of the last attempt as it
  is; when the attempt number \<open>k\<close> is the first to succeed, its value is returned after
  \<open>k + 1\<close> invocations with the same waits between them, and the operation is not invoked
  again.
\<close>

theorem withRetry_backoff:
  assumes "0 \<le> maxRetries"
  shows
  "((\<forall>j\<le>nat maxRetries. isl (fst (operation (state_before operation j s)))) \<longrightarrow>
      withRetry operation maxRetries delay s
        = (Inl (Some (projl (fst (operation (state_before operation (nat maxRetries) s))))),
           snd (operation (state_before operation (nat maxRetries) s)),
           backoff_trace delay 0 (nat maxRetries))
      \<and> invocations (snd (snd (withRetry operation maxRetries delay s))) = nat maxRetries + 1)
   \<and> (k \<le> nat maxRetries \<and> (\<forall>j<k. isl (fst (operation (state_before operation j s))))
        \<and> fst (operation (state_before operation k s)) = Inr v \<longrightarrow>
      withRetry operation maxRetries delay s
        = (Inr v, snd (operation (state_before operation k s)), backoff_trace delay 0 k)
      \<and> invocations (snd (snd (withRetry operation maxRetries delay s))) = k + 1)"
proof (intro conjI impI)
  assume fail: "\<forall>j\<le>nat maxRetries. isl (fst (operation (state_before operation j s)))"
  have "int (0 + nat maxRetries) = maxRetries" using assms by simp
  from loop_fail[OF this fail, of delay None]
  show r: "withRetry operation maxRetries delay s
        = (Inl (Some (projl (fst (operation (state_before operation (nat maxRetries) s))))),
           snd (operation (state_before operation (nat maxRetries) s)),
           backoff_trace delay 0 (nat maxRetries))"
    by (simp add: withRetry_def)
  show "invocations (snd (snd (withRetry operation maxRetries delay s))) = nat maxRetries + 1"
    by (simp add: r invocations_backoff_trace)
next
  assume ok: "k \<le> nat maxRetries \<and> (\<forall>j<k. isl (fst (operation (state_before operation j s))))
        \<and> fst (operation (state_before operation k s)) = Inr v"
  then have le: "int (0 + k) \<le> maxRetries"
    and fl: "\<forall>j<k. isl (fst (operation (state_before operation j s)))"
    and sc: "fst (operation (state_before operation k s)) = Inr v"
    using assms by auto
  from loop_success[OF le fl sc, of delay None]
  show r: "withRetry operation maxRetries delay s
        = (Inr v, snd (operation (state_before operation k s)), backoff_trace delay 0 k)"
    by (simp add: withRetry_def)
  show "invocations (snd (snd (withRetry operation maxRetries delay s))) = k + 1"
    by (simp add: r invocations_backoff_trace)
qed

text \<open>
  An operation that counts its invocations in the state and rejects with the count, and one
  that resolves from its third invocation on.
\<close>

theorem withRetry_backoff_witness:
  "withRetry (\<lambda>n::nat. (Inl n :: nat + nat, Suc n)) 3 1000 0
     = (Inl (Some 3), 4,
        [Invoked, Waited 1000, Invoked, Waited 2000, Invoked, Waited 4000, Invoked])
   \<and> withRetry (\<lambda>n::nat. (if n < 2 then Inl n else Inr (10 * n), Suc n)) 3 1000 0
     = (Inr 20, 3, [Invoked, Waited 1000, Invoked, Waited 2000, Invoked])"
proof -
  let ?f = "\<lambda>n::nat. (Inl n :: nat + nat, Suc n)"
  let ?g = "\<lambda>n::nat. (if n < 2 then Inl n else Inr (10 * n) :: nat + nat, Suc n)"
  have sf: "state_before ?f j s = s + j" for j s
    by (induction j arbitrary: s) simp_all
  have sg: "state_before ?g j s = s + j" for j s
    by (induction j arbitrary: s) simp_all
  have tr: "backoff_trace 1000 0 3
              = [Invoked, Waited 1000, Invoked, Waited 2000, Invoked, Waited 4000, Invoked]"
       "backoff_trace 1000 0 2 = [Invoked, Waited 1000, Invoked, Waited 2000, Invoked]"
    by (simp_all add: backoff_trace_def upt_rec numeral_3_eq_3 numeral_2_eq_2)
  have n3: "nat 3 = 3" by simp
  have h1: "\<forall>j\<le>nat 3. isl (fst (?f (state_before ?f j 0)))" by simp
  have h2: "(2::nat) \<le> nat 3 \<and> (\<forall>j<2. isl (fst (?g (state_before ?g j 0))))
              \<and> fst (?g (state_before ?g 2 0)) = Inr 20"
    by (simp add: sg)
  have a: "withRetry ?f 3 1000 0
     = (Inl (Some 3), 4,
        [Invoked, Waited 1000, Invoked, Waited 2000, Invoked, Waited 4000, Invoked])"
    using withRetry_backoff[of 3 ?f 0 1000 0 0] h1 by (simp add: sf tr n3)
  have b: "withRetry ?g 3 1000 0
     = (Inr 20, 3, [Invoked, Waited 1000, Invoked, Waited 2000, Invoked])"
    using withRetry_backoff[of 3 ?g 0 1000 2 20] h2 by (simp add: sg tr)
  from a b show ?thesis by simp
qed

section \<open>Properties of the transformation request handler\<close>

lemmas stage_defs = secureCartoonifyImage_def withSecurity_def auth_stage_def rate_limit_stage_def
  audit_stage_def cartoonify_options_def call_isAllowed_def call_getRemainingRequests_def
  call_getResetTime_def Date_now_def audit_def getUserIdentity_def

lemmas handler_defs = cartoonify_handler_def start_processing_def db_query_def db_patch_def
  enqueue_generation_def

lemmas error_defs = AuthenticationRequired_def RateLimited_def InvalidStyle_def RecordNotFound_def
  Unauthorized_def SchedulingFailed_def

lemmas scenario_defs = caller_def example_image_def example_world_def in_flight_world_def
  example_args_def after_three_calls_def module_init_def new_SecurityAuditLogger_def

lemmas eval_defs = stage_defs handler_defs patch_image_def error_defs rate_limit_identifier_def
  isAllowed_def validRequests_def stored_def new_RateLimiter_def getRemainingRequests_def
  getResetTime_def Let_def allowedStyles_def resolved_def truthy_string_def new_effects_def
  admits_def

lemma resolved_Some:
  "resolved w sid = Some img \<Longrightarrow>
   \<exists>rest. filter (\<lambda>x. originalStorageId x = sid) (images w) = img # rest"
  by (auto simp: resolved_def split: list.splits)

lemma filter_patch:
  "filter (\<lambda>x. originalStorageId x = sid) (map (patch_image i st t) xs)
   = map (patch_image i st t) (filter (\<lambda>x. originalStorageId x = sid) xs)"
  by (induction xs) (auto simp: patch_image_def)

lemma filter_patch_comp:
  "filter (\<lambda>x. originalStorageId x = sid) (map (patch_image i st t \<circ> f) xs)
   = map (patch_image i st t) (filter (\<lambda>x. originalStorageId x = sid) (map f xs))"
  using filter_patch[of sid i st t "map f xs"] by simp

lemma admits_True:
  assumes "admits c w"
  obtains rl where
    "isAllowed (limiters w ProcessingLimiter) (clock w (reads w)) (rate_limit_identifier c)
       = (True, rl)"
  using assms
  by (cases "isAllowed (limiters w ProcessingLimiter) (clock w (reads w)) (rate_limit_identifier c)")
     (auto simp: admits_def)

lemma in_slice_last_2:
  "2 \<le> n \<Longrightarrow> x \<in> set (slice_last n (slice_last n (xs @ [x]) @ [y]))"
  by (simp add: slice_last_append) (simp add: slice_last_def)

text \<open>
  A call the limiter refuses fails with the rate-limit error; it makes no query, no patch
  and no enqueue.
\<close>

lemma rate_limited:
  assumes auth: "identity c = Some i"
    and rej: "\<not> admits c w"
  shows "fst (secureCartoonifyImage c args w) = Inl RateLimited
     \<and> images (snd (secureCartoonifyImage c args w)) = images w
     \<and> scheduled (snd (secureCartoonifyImage c args w)) = scheduled w
     \<and> new_effects w (snd (secureCartoonifyImage c args w)) = []"
proof -
  from rej obtain rl where
    a: "isAllowed (limiters w ProcessingLimiter) (clock w (reads w)) (rate_limit_identifier c)
          = (False, rl)"
    by (cases "isAllowed (limiters w ProcessingLimiter) (clock w (reads w))
                 (rate_limit_identifier c)")
       (auto simp: admits_def)
  show ?thesis
    using auth a
    by (simp add: stage_defs new_effects_def error_defs getRemainingRequests_def
        getResetTime_def Let_def)
qed

text \<open>
  A request that passes every check and the status gate: the record is patched to
  "processing", the enqueue statement throws, the record is patched back to "pending", and
  the call fails with the scheduling error. No job reaches the scheduler.
\<close>

lemma passing_request_outcome:
  assumes auth: "identity c = Some i"
    and adm: "admits c w"
    and sty: "style args \<in> set allowedStyles"
    and res: "resolved w (storageId args) = Some img"
    and own: "userId img = subject i"
    and st1: "status img \<noteq> ''processing''"
    and st2: "\<not> (status img = ''completed'' \<and> truthy_string (cartoonImageUrl img))"
  shows "fst (secureCartoonifyImage c args w) = Inl SchedulingFailed"
    and "resolved (snd (secureCartoonifyImage c args w)) (storageId args)
           = Some (img\<lparr>status := ''pending'', updatedAt := clock w (reads w + 6)\<rparr>)"
    and "scheduled (snd (secureCartoonifyImage c args w)) = scheduled w"
    and "new_effects w (snd (secureCartoonifyImage c args w))
           = [DbQuery (storageId args),
              DbPatch (image_id img) ''processing'' (clock w (reads w + 3)),
              EnqueueThrew (ThrownError ''internal is not defined''),
              DbPatch (image_id img) ''pending'' (clock w (reads w + 6))]"
    and "\<lparr>timestamp = clock w (reads w + 8), level = Error,
          event = ''image_processing_scheduling_failed'',
          details = JObject [(''userId'', JString (subject i)),
                             (''imageId'', JString (image_id img)),
                             (''error'', JString ''internal is not defined''),
                             (''timestamp'', JISOString (clock w (reads w + 7)))],
          log_userId = None, ip = None\<rparr>
         \<in> set (logs (securityAuditLogger (snd (secureCartoonifyImage c args w))))"
proof -
  from res obtain rest where
    f: "filter (\<lambda>x. originalStorageId x = storageId args) (images w) = img # rest"
    using resolved_Some by blast
  from adm obtain rl where
    a: "isAllowed (limiters w ProcessingLimiter) (clock w (reads w)) (rate_limit_identifier c)
          = (True, rl)"
    by (rule admits_True)
  have gate: "(status img = ''completed'' \<and> truthy_string (cartoonImageUrl img)) = False"
    using st2 by simp
  note facts = auth sty f own st1 a
  note defs = stage_defs cartoonify_handler_def start_processing_def db_query_def db_patch_def
    enqueue_generation_def internal_reference_def Let_def gate
  show "fst (secureCartoonifyImage c args w) = Inl SchedulingFailed"
    using facts by (simp add: defs error_defs)
  show "resolved (snd (secureCartoonifyImage c args w)) (storageId args)
           = Some (img\<lparr>status := ''pending'', updatedAt := clock w (reads w + 6)\<rparr>)"
    using facts
    by (simp add: defs resolved_def filter_patch filter_patch_comp patch_image_def
        eval_nat_numeral)
  show "scheduled (snd (secureCartoonifyImage c args w)) = scheduled w"
    using facts by (simp add: defs)
  show "new_effects w (snd (secureCartoonifyImage c args w))
           = [DbQuery (storageId args),
              DbPatch (image_id img) ''processing'' (clock w (reads w + 3)),
              EnqueueThrew (ThrownError ''internal is not defined''),
              DbPatch (image_id img) ''pending'' (clock w (reads w + 6))]"
    using facts by (simp add: defs new_effects_def eval_nat_numeral)
  show "\<lparr>timestamp = clock w (reads w + 8), level = Error,
          event = ''image_processing_scheduling_failed'',
          details = JObject [(''userId'', JString (subject i)),
                             (''imageId'', JString (image_id img)),
                             (''error'', JString ''internal is not defined''),
                             (''timestamp'', JISOString (clock w (reads w + 7)))],
          log_userId = None, ip = None\<rparr>
         \<in> set (logs (securityAuditLogger (snd (secureCartoonifyImage c args w))))"
    using facts by (simp add: defs logs_log in_slice_last_2 eval_nat_numeral)
qed

text \<open>
  Claim C1. The claim fails on the code as it is: alice owns the pending record, the style
  is valid and the limiter admits the call, and the invocation patches the record to
  "processing", throws at the enqueue statement, patches the record back to "pending" and
  fails with the scheduling error; no job is scheduled.
\<close>

theorem pending_request_fails_to_schedule:
  "identity (caller ''alice'') = Some \<lparr>subject = ''alice''\<rparr>
   \<and> ''anime'' \<in> set allowedStyles
   \<and> resolved example_world ''s1'' = Some (example_image ''img1'' ''alice'' ''s1'')
   \<and> status (example_image ''img1'' ''alice'' ''s1'') = ''pending''
   \<and> admits (caller ''alice'') example_world
   \<and> fst (secureCartoonifyImage (caller ''alice'') (example_args ''s1'' ''anime'')
            example_world) = Inl SchedulingFailed
   \<and> map_option status (resolved (snd (secureCartoonifyImage (caller ''alice'')
         (example_args ''s1'' ''anime'') example_world)) ''s1'') = Some ''pending''
   \<and> scheduled (snd (secureCartoonifyImage (caller ''alice'')
         (example_args ''s1'' ''anime'') example_world)) = []
   \<and> new_effects example_world (snd (secureCartoonifyImage (caller ''alice'')
         (example_args ''s1'' ''anime'') example_world))
       = [DbQuery ''s1'', DbPatch ''img1'' ''processing'' 1003,
          EnqueueThrew (ThrownError ''internal is not defined''),
          DbPatch ''img1'' ''pending'' 1006]"
  by (simp add: scenario_defs eval_defs internal_reference_def)

text \<open>
  An enqueue statement is evaluated only for an authenticated caller, an admitted call, a
  valid style and a resolved record of the caller that is past the status gate.
\<close>

lemma enqueue_needs_identity:
  assumes thr: "EnqueueThrew t \<in> set (new_effects w (snd (secureCartoonifyImage c args w)))"
  shows "\<exists>i. identity c = Some i"
proof (cases "identity c")
  case None
  then have "new_effects w (snd (secureCartoonifyImage c args w)) = []"
    by (simp add: stage_defs new_effects_def)
  with thr show ?thesis by simp
next
  case (Some i)
  then show ?thesis by simp
qed

lemma enqueue_needs_gate:
  assumes auth: "identity c = Some i"
    and thr: "EnqueueThrew t \<in> set (new_effects w (snd (secureCartoonifyImage c args w)))"
  shows "admits c w \<and> style args \<in> set allowedStyles
     \<and> (\<exists>img. resolved w (storageId args) = Some img \<and> userId img = subject i
           \<and> status img \<noteq> ''processing''
           \<and> \<not> (status img = ''completed'' \<and> truthy_string (cartoonImageUrl img)))"
proof -
  let ?w' = "snd (secureCartoonifyImage c args w)"
  have adm: "admits c w"
  proof (rule ccontr)
    assume "\<not> admits c w"
    from rate_limited[OF auth this, of args] thr show False by simp
  qed
  then obtain rl where
    a: "isAllowed (limiters w ProcessingLimiter) (clock w (reads w)) (rate_limit_identifier c)
          = (True, rl)"
    by (rule admits_True)
  have sty: "style args \<in> set allowedStyles"
  proof (rule ccontr)
    assume "style args \<notin> set allowedStyles"
    then have "new_effects w ?w' = []"
      using auth a by (simp add: stage_defs handler_defs new_effects_def)
    with thr show False by simp
  qed
  obtain img where res: "resolved w (storageId args) = Some img"
  proof (cases "resolved w (storageId args)")
    case (Some img)
    then show ?thesis using that by simp
  next
    case None
    then have "filter (\<lambda>x. originalStorageId x = storageId args) (images w) = []"
      by (simp add: resolved_def split: list.splits)
    then have "new_effects w ?w' = [DbQuery (storageId args)]"
      using auth a sty by (simp add: stage_defs handler_defs new_effects_def)
    with thr show ?thesis by simp
  qed
  then obtain rest where
    f: "filter (\<lambda>x. originalStorageId x = storageId args) (images w) = img # rest"
    using resolved_Some by blast
  have own: "userId img = subject i"
  proof (rule ccontr)
    assume "userId img \<noteq> subject i"
    then have "new_effects w ?w' = [DbQuery (storageId args)]"
      using auth a sty f by (simp add: stage_defs handler_defs new_effects_def)
    with thr show False by simp
  qed
  have st1: "status img \<noteq> ''processing''"
  proof
    assume "status img = ''processing''"
    then have "new_effects w ?w' = [DbQuery (storageId args)]"
      using auth a sty f own by (simp add: stage_defs handler_defs new_effects_def)
    with thr show False by simp
  qed
  have st2: "\<not> (status img = ''completed'' \<and> truthy_string (cartoonImageUrl img))"
  proof
    assume "status img = ''completed'' \<and> truthy_string (cartoonImageUrl img)"
    then have "new_effects w ?w' = [DbQuery (storageId args)]"
      using auth a sty f own by (simp add: stage_defs handler_defs new_effects_def)
    with thr show False by simp
  qed
  from adm sty res own st1 st2 show ?thesis by blast
qed

text \<open>
  Claim C2. In every invocation in which the enqueue statement throws, the call fails with
  the scheduling error; what was thrown is an error with a message; the record resolved for
  the reference ends in status "pending" with \<open>updatedAt\<close> set to the clock reading of the
  reverting patch (so it is not left in status "processing"); and an error entry
  "image_processing_scheduling_failed" carrying that message is in the audit log.
\<close>

theorem scheduling_failure_reverts:
  assumes thr: "EnqueueThrew t \<in> set (new_effects w (snd (secureCartoonifyImage c args w)))"
  shows "fst (secureCartoonifyImage c args w) = Inl SchedulingFailed
     \<and> (\<exists>i img m. identity c = Some i \<and> resolved w (storageId args) = Some img
          \<and> t = ThrownError m
          \<and> resolved (snd (secureCartoonifyImage c args w)) (storageId args)
               = Some (img\<lparr>status := ''pending'', updatedAt := clock w (reads w + 6)\<rparr>)
          \<and> \<lparr>timestamp = clock w (reads w + 8), level = Error,
              event = ''image_processing_scheduling_failed'',
              details = JObject [(''userId'', JString (subject i)),
                                 (''imageId'', JString (image_id img)),
                                 (''error'', JString m),
                                 (''timestamp'', JISOString (clock w (reads w + 7)))],
              log_userId = None, ip = None\<rparr>
             \<in> set (logs (securityAuditLogger (snd (secureCartoonifyImage c args w)))))"
proof -
  from enqueue_needs_identity[OF thr] obtain i where auth: "identity c = Some i" by blast
  from enqueue_needs_gate[OF auth thr] obtain img where
    adm: "admits c w" and sty: "style args \<in> set allowedStyles"
    and res: "resolved w (storageId args) = Some img" and own: "userId img = subject i"
    and st1: "status img \<noteq> ''processing''"
    and st2: "\<not> (status img = ''completed'' \<and> truthy_string (cartoonImageUrl img))"
    by blast
  note out = passing_request_outcome[OF auth adm sty res own st1 st2]
  from thr out(4) have t: "t = ThrownError ''internal is not defined''" by simp
  from out(1,2,5) auth res t show ?thesis by blast
qed

theorem scheduling_failure_reverts_witness:
  "fst (secureCartoonifyImage (caller ''alice'') (example_args ''s1'' ''anime'') example_world)
     = Inl SchedulingFailed
   \<and> resolved (snd (secureCartoonifyImage (caller ''alice'') (example_args ''s1'' ''anime'')
                 example_world)) ''s1''
       = Some ((example_image ''img1'' ''alice'' ''s1'')\<lparr>status := ''pending'', updatedAt := 1006\<rparr>)
   \<and> \<lparr>timestamp = 1008, level = Error, event = ''image_processing_scheduling_failed'',
       details = JObject [(''userId'', JString ''alice''), (''imageId'', JString ''img1''),
                          (''error'', JString ''internal is not defined''),
                          (''timestamp'', JISOString 1007)],
       log_userId = None, ip = None\<rparr>
      \<in> set (logs (securityAuditLogger (snd (secureCartoonifyImage (caller ''alice'')
                 (example_args ''s1'' ''anime'') example_world))))"
proof -
  let ?c = "caller ''alice''"
  let ?a = "example_args ''s1'' ''anime''"
  let ?img = "example_image ''img1'' ''alice'' ''s1''"
  have h: "EnqueueThrew (ThrownError ''internal is not defined'')
              \<in> set (new_effects example_world (snd (secureCartoonifyImage ?c ?a example_world)))"
    by (simp add: scenario_defs eval_defs internal_reference_def)
  have h1: "identity ?c = Some \<lparr>subject = ''alice''\<rparr>" by (simp add: caller_def)
  have h2: "resolved example_world (storageId ?a) = Some ?img"
    by (simp add: scenario_defs resolved_def)
  have s: "storageId ?a = ''s1''" by (simp add: example_args_def)
  have t: "clock example_world (reads example_world + 6) = 1006"
     "clock example_world (reads example_world + 7) = 1007"
     "clock example_world (reads example_world + 8) = 1008"
    by (simp_all add: example_world_def module_init_def)
  have i: "image_id ?img = ''img1''" by (simp add: example_image_def)
  from scheduling_failure_reverts[OF h] h1 h2 show ?thesis
    by (auto simp: s t i)
qed

text \<open>
  Claim C3, as amended. When the caller is authenticated, the processing limiter admits the
  call, the style is allowed and the resolved record belongs to the caller: on a record in
  status "processing" the invocation returns success with status "processing", and on a
  record in status "completed" with a non-empty derived URL it returns success with status
  "completed"; in both cases the table of images is left as it was (so \<open>updatedAt\<close> is
  unchanged), no job is enqueued, and the only call made to the platform is the query.
\<close>

theorem in_flight_and_completed_short_circuit:
  assumes auth: "identity c = Some i"
    and adm: "admits c w"
    and sty: "style args \<in> set allowedStyles"
    and res: "resolved w (storageId args) = Some img"
    and own: "userId img = subject i"
  shows "(status img = ''processing'' \<longrightarrow>
           fst (secureCartoonifyImage c args w)
             = Inr \<lparr>success = True, result_status = ''processing''\<rparr>
           \<and> images (snd (secureCartoonifyImage c args w)) = images w
           \<and> scheduled (snd (secureCartoonifyImage c args w)) = scheduled w
           \<and> new_effects w (snd (secureCartoonifyImage c args w)) = [DbQuery (storageId args)])
       \<and> (status img = ''completed'' \<and> truthy_string (cartoonImageUrl img) \<longrightarrow>
           fst (secureCartoonifyImage c args w)
             = Inr \<lparr>success = True, result_status = ''completed''\<rparr>
           \<and> images (snd (secureCartoonifyImage c args w)) = images w
           \<and> scheduled (snd (secureCartoonifyImage c args w)) = scheduled w
           \<and> new_effects w (snd (secureCartoonifyImage c args w)) = [DbQuery (storageId args)])"
proof -
  from res obtain rest where
    f: "filter (\<lambda>x. originalStorageId x = storageId args) (images w) = img # rest"
    using resolved_Some by blast
  from adm obtain rl where
    a: "isAllowed (limiters w ProcessingLimiter) (clock w (reads w)) (rate_limit_identifier c)
          = (True, rl)"
    by (rule admits_True)
  show ?thesis
    using auth sty f own a
    by (simp add: stage_defs handler_defs new_effects_def)
qed

text \<open>
  A record of alice in status "processing", and one that is completed with its derived URL.
\<close>

theorem in_flight_and_completed_short_circuit_witness:
  "fst (secureCartoonifyImage (caller ''alice'') (example_args ''s1'' ''anime'')
          (example_world\<lparr>images := [(example_image ''img1'' ''alice'' ''s1'')
             \<lparr>status := ''processing''\<rparr>]\<rparr>))
     = Inr \<lparr>success = True, result_status = ''processing''\<rparr>
   \<and> fst (secureCartoonifyImage (caller ''alice'') (example_args ''s1'' ''anime'')
          (example_world\<lparr>images := [(example_image ''img1'' ''alice'' ''s1'')
             \<lparr>status := ''completed'', cartoonImageUrl := Some ''https://files/derived''\<rparr>]\<rparr>))
     = Inr \<lparr>success = True, result_status = ''completed''\<rparr>
   \<and> images (snd (secureCartoonifyImage (caller ''alice'')
          (example_args ''s1'' ''anime'')
          (example_world\<lparr>images := [(example_image ''img1'' ''alice'' ''s1'')
             \<lparr>status := ''completed'', cartoonImageUrl := Some ''https://files/derived''\<rparr>]\<rparr>)))
     = [(example_image ''img1'' ''alice'' ''s1'')
             \<lparr>status := ''completed'', cartoonImageUrl := Some ''https://files/derived''\<rparr>]"
proof -
  let ?c = "caller ''alice''"
  let ?a = "example_args ''s1'' ''anime''"
  let ?p = "(example_image ''img1'' ''alice'' ''s1'')\<lparr>status := ''processing''\<rparr>"
  let ?d = "(example_image ''img1'' ''alice'' ''s1'')
             \<lparr>status := ''completed'', cartoonImageUrl := Some ''https://files/derived''\<rparr>"
  let ?wp = "example_world\<lparr>images := [?p]\<rparr>"
  let ?wd = "example_world\<lparr>images := [?d]\<rparr>"
  have h1: "identity ?c = Some \<lparr>subject = ''alice''\<rparr>" by (simp add: caller_def)
  have h2p: "admits ?c ?wp" by (simp add: scenario_defs eval_defs)
  have h2d: "admits ?c ?wd" by (simp add: scenario_defs eval_defs)
  have h3: "style ?a \<in> set allowedStyles" by (simp add: example_args_def allowedStyles_def)
  have h4p: "resolved ?wp (storageId ?a) = Some ?p" by (simp add: scenario_defs resolved_def)
  have h4d: "resolved ?wd (storageId ?a) = Some ?d" by (simp add: scenario_defs resolved_def)
  have h5p: "userId ?p = subject \<lparr>subject = ''alice''\<rparr>" by (simp add: example_image_def)
  have h5d: "userId ?d = subject \<lparr>subject = ''alice''\<rparr>" by (simp add: example_image_def)
  have sp: "status ?p = ''processing''" by simp
  have sd: "status ?d = ''completed'' \<and> truthy_string (cartoonImageUrl ?d)"
    by (simp add: truthy_string_def)
  from in_flight_and_completed_short_circuit[OF h1 h2p h3 h4p h5p] sp
  have p: "fst (secureCartoonifyImage ?c ?a ?wp) = Inr \<lparr>success = True, result_status = ''processing''\<rparr>"
    by blast
  from in_flight_and_completed_short_circuit[OF h1 h2d h3 h4d h5d] sd
  have d: "fst (secureCartoonifyImage ?c ?a ?wd) = Inr \<lparr>success = True, result_status = ''completed''\<rparr>
           \<and> images (snd (secureCartoonifyImage ?c ?a ?wd)) = images ?wd"
    by blast
  from p d show ?thesis by simp
qed

text \<open>
  The claim as stated fails: on a record of alice in status "processing", after three
  calls within the window (each answered "processing"), the fourth call of the owner, with
  a valid style, fails with the rate-limit error.
\<close>

theorem in_flight_request_rate_limited:
  "identity (caller ''alice'') = Some \<lparr>subject = ''alice''\<rparr>
   \<and> ''anime'' \<in> set allowedStyles
   \<and> map_option userId (resolved (after_three_calls (caller ''alice'')
         (example_args ''s1'' ''anime'') in_flight_world) ''s1'') = Some ''alice''
   \<and> map_option status (resolved (after_three_calls (caller ''alice'')
         (example_args ''s1'' ''anime'') in_flight_world) ''s1'') = Some ''processing''
   \<and> fst (secureCartoonifyImage (caller ''alice'') (example_args ''s1'' ''anime'')
            (after_three_calls (caller ''alice'') (example_args ''s1'' ''anime'')
               in_flight_world)) = Inl RateLimited"
  by (simp add: scenario_defs eval_defs)

text \<open>
  Claim C5, as amended. When the caller is authenticated and the processing limiter admits
  the call, a style that is not one of the allowed styles (the empty string included) makes
  the invocation fail with the invalid-style error; a warning entry
  "invalid_style_parameter" is in the audit log; no call is made to the record store, no
  enqueue is attempted, and the images are left as they were.
\<close>

theorem invalid_style_rejected_before_lookup:
  assumes auth: "identity c = Some i"
    and adm: "admits c w"
    and sty: "style args \<notin> set allowedStyles"
  shows "fst (secureCartoonifyImage c args w) = Inl InvalidStyle
     \<and> \<lparr>timestamp = clock w (reads w + 3), level = Warning, event = ''invalid_style_parameter'',
         details = JObject [(''userId'', JString (subject i)), (''style'', JString (style args)),
                            (''userAgent'', js_opt (userAgent args)),
                            (''ipAddress'', js_opt (ipAddress args))],
         log_userId = None, ip = None\<rparr>
        \<in> set (logs (securityAuditLogger (snd (secureCartoonifyImage c args w))))
     \<and> new_effects w (snd (secureCartoonifyImage c args w)) = []
     \<and> images (snd (secureCartoonifyImage c args w)) = images w"
proof -
  from adm obtain rl where
    a: "isAllowed (limiters w ProcessingLimiter) (clock w (reads w)) (rate_limit_identifier c)
          = (True, rl)"
    by (rule admits_True)
  show ?thesis
    using auth sty a
    by (simp add: stage_defs handler_defs new_effects_def error_defs logs_log in_slice_last_2
        numeral_3_eq_3)
qed

theorem invalid_style_rejected_before_lookup_witness:
  "fst (secureCartoonifyImage (caller ''alice'') (example_args ''s1'' [])
          example_world) = Inl InvalidStyle
   \<and> new_effects example_world (snd (secureCartoonifyImage (caller ''alice'')
          (example_args ''s1'' []) example_world)) = []
   \<and> fst (secureCartoonifyImage (caller ''alice'') (example_args ''s1'' ''pixar'')
          example_world) = Inl InvalidStyle"
proof -
  let ?c = "caller ''alice''"
  have h1: "identity ?c = Some \<lparr>subject = ''alice''\<rparr>" by (simp add: caller_def)
  have h2: "admits ?c example_world" by (simp add: scenario_defs eval_defs)
  have h3: "style (example_args ''s1'' []) \<notin> set allowedStyles"
    by (simp add: example_args_def allowedStyles_def)
  have h4: "style (example_args ''s1'' ''pixar'') \<notin> set allowedStyles"
    by (simp add: example_args_def allowedStyles_def)
  from invalid_style_rejected_before_lookup[OF h1 h2 h3]
       invalid_style_rejected_before_lookup[OF h1 h2 h4]
  show ?thesis by simp
qed

text \<open>
  The claim as stated fails: the fourth call with an invalid style within the window fails
  with the rate-limit error, not with the invalid-style error.
\<close>

theorem invalid_style_rate_limited:
  "identity (caller ''alice'') = Some \<lparr>subject = ''alice''\<rparr>
   \<and> ''pixar'' \<notin> set allowedStyles
   \<and> fst (secureCartoonifyImage (caller ''alice'') (example_args ''s1'' ''pixar'')
            (after_three_calls (caller ''alice'') (example_args ''s1'' ''pixar'')
               example_world)) = Inl RateLimited"
  by (simp add: scenario_defs eval_defs)

text \<open>
  Claim C6, as amended. When the caller is authenticated, the processing limiter admits the
  call and the style is one of the allowed styles, a caller whose subject differs from the
  owner of the resolved record gets the unauthorized error; a warning entry
  "unauthorized_image_access" carrying both identities is in the audit log; the images and
  the scheduled jobs are left as they were.
\<close>

theorem non_owner_unauthorized:
  assumes auth: "identity c = Some i"
    and adm: "admits c w"
    and sty: "style args \<in> set allowedStyles"
    and res: "resolved w (storageId args) = Some img"
    and own: "userId img \<noteq> subject i"
  shows "fst (secureCartoonifyImage c args w) = Inl Unauthorized
     \<and> \<lparr>timestamp = clock w (reads w + 3), level = Warning,
         event = ''unauthorized_image_access'',
         details = JObject [(''userId'', JString (subject i)),
                            (''imageId'', JString (image_id img)),
                            (''imageOwner'', JString (userId img)),
                            (''userAgent'', js_opt (userAgent args)),
                            (''ipAddress'', js_opt (ipAddress args))],
         log_userId = None, ip = None\<rparr>
        \<in> set (logs (securityAuditLogger (snd (secureCartoonifyImage c args w))))
     \<and> images (snd (secureCartoonifyImage c args w)) = images w
     \<and> scheduled (snd (secureCartoonifyImage c args w)) = scheduled w"
proof -
  from res obtain rest where
    f: "filter (\<lambda>x. originalStorageId x = storageId args) (images w) = img # rest"
    using resolved_Some by blast
  from adm obtain rl where
    a: "isAllowed (limiters w ProcessingLimiter) (clock w (reads w)) (rate_limit_identifier c)
          = (True, rl)"
    by (rule admits_True)
  show ?thesis
    using auth sty f own a
    by (simp add: stage_defs handler_defs new_effects_def error_defs logs_log in_slice_last_2
        numeral_3_eq_3)
qed

theorem non_owner_unauthorized_witness:
  "fst (secureCartoonifyImage (caller ''bob'') (example_args ''s1'' ''anime'')
          example_world) = Inl Unauthorized
   \<and> images (snd (secureCartoonifyImage (caller ''bob'')
          (example_args ''s1'' ''anime'') example_world)) = images example_world"
proof -
  let ?c = "caller ''bob''"
  let ?a = "example_args ''s1'' ''anime''"
  let ?img = "example_image ''img1'' ''alice'' ''s1''"
  have h1: "identity ?c = Some \<lparr>subject = ''bob''\<rparr>" by (simp add: caller_def)
  have h2: "admits ?c example_world" by (simp add: scenario_defs eval_defs)
  have h3: "style ?a \<in> set allowedStyles" by (simp add: example_args_def allowedStyles_def)
  have h4: "resolved example_world (storageId ?a) = Some ?img"
    by (simp add: scenario_defs resolved_def)
  have h5: "userId ?img \<noteq> subject \<lparr>subject = ''bob''\<rparr>" by (simp add: example_image_def)
  from non_owner_unauthorized[OF h1 h2 h3 h4 h5] show ?thesis by simp
qed

text \<open>
  The claim as stated fails: with an invalid style the caller who is not the owner gets the
  invalid-style error, since the style is checked before the record is resolved; and on
  the fourth call within the window such a caller gets the rate-limit error.
\<close>

theorem non_owner_invalid_style:
  "identity (caller ''bob'') = Some \<lparr>subject = ''bob''\<rparr>
   \<and> map_option userId (resolved example_world ''s1'') = Some ''alice''
   \<and> fst (secureCartoonifyImage (caller ''bob'') (example_args ''s1'' ''pixar'')
            example_world) = Inl InvalidStyle
   \<and> map_option userId (resolved (after_three_calls (caller ''bob'')
         (example_args ''s1'' ''anime'') example_world) ''s1'') = Some ''alice''
   \<and> fst (secureCartoonifyImage (caller ''bob'') (example_args ''s1'' ''anime'')
            (after_three_calls (caller ''bob'') (example_args ''s1'' ''anime'')
               example_world)) = Inl RateLimited"
  by (simp add: scenario_defs eval_defs)

text \<open>
  The identifier the middleware gives to the limiter is "anonymous" for every caller.
\<close>

lemma rate_limit_identifier_anonymous: "rate_limit_identifier c = ''anonymous''"
  by (simp add: rate_limit_identifier_def getUserIdentity_def)

text \<open>
  Claim C4. The limiter is not keyed by the caller: the identifier is "anonymous" for alice
  and for bob; alice's three admitted calls are stored under "anonymous" and nothing is
  stored under "alice"; and the first call bob ever makes, on his own pending record and
  within the window of alice's calls, fails with the rate-limit error.
\<close>

theorem limiter_shared_by_all_callers:
  "rate_limit_identifier (caller ''alice'') = ''anonymous''
   \<and> rate_limit_identifier (caller ''bob'') = ''anonymous''
   \<and> requests (limiters (after_three_calls (caller ''alice'')
         (example_args ''s1'' ''anime'') example_world) ProcessingLimiter) ''alice'' = None
   \<and> requests (limiters (after_three_calls (caller ''alice'')
         (example_args ''s1'' ''anime'') example_world) ProcessingLimiter) ''anonymous''
       = Some [1000, 1010, 1020]
   \<and> resolved (after_three_calls (caller ''alice'')
         (example_args ''s1'' ''anime'') example_world) ''s2''
       = Some (example_image ''img2'' ''bob'' ''s2'')
   \<and> fst (secureCartoonifyImage (caller ''bob'') (example_args ''s2'' ''anime'')
            (after_three_calls (caller ''alice'') (example_args ''s1'' ''anime'')
               example_world)) = Inl RateLimited"
  by (simp add: scenario_defs eval_defs)

end
